theory Spec2Isabelle
  imports Complex_Main "HOL-Library.Char_ord" "HOL-Library.List_Lexorder"
    "HOL-Library.Product_Lexorder" "HOL-Library.Multiset"
begin

section \<open>Monthly distance aggregation (logic/monthly_distance.py)\<close>

text \<open>
  Conventions of the embedding.
  \<^item> A Python float that measures a distance is the real number it denotes. In the
    loop over the visits of a day, \<open>total_km += km\<close> is the addition of IEEE 754
    binary64: the exact sum rounded to the nearest double, ties to the even
    significand (\<open>float_add\<close>). A sum whose magnitude reaches \<open>2 ^ 1024\<close> is not
    modelled; a geodesic distance is below 21000 km.
  \<^item> \<open>round(x, 2)\<close> is the rounding of \<open>x\<close> to the nearest multiple of \<open>1/100\<close>,
    ties to the even neighbour: its value is the number of two decimals it prints.
  \<^item> The monthly totals add day distances, which have two decimals; this addition
    is kept exact.
  \<^item> A float used as a coordinate may also be infinite or not-a-number
    (\<open>float('inf')\<close>), so coordinates have the type \<open>pyfloat\<close>.
  \<^item> The libraries the module calls (\<open>geopy\<close>, \<open>pandas.read_excel\<close>, the
    number parsers and printers of Python and pandas) are arguments of the model;
    an exception of a library call is the value \<open>None\<close> or \<open>Inl\<close>.
  \<^item> A \<open>string\<close> is a sequence of code points below 256.
\<close>

subsection \<open>Floats\<close>

datatype pyfloat = NegInf | Fin real | PosInf | NanF

type_synonym coord = "pyfloat \<times> pyfloat"

text \<open>\<open>geodesic(a, b).km\<close>: the distance in kilometres, or \<open>None\<close> when geopy raises.\<close>

type_synonym geodesic_fn = "coord \<Rightarrow> coord \<Rightarrow> real option"

definition round_half_even :: "real \<Rightarrow> int" where
  "round_half_even x =
     (let f = \<lfloor>x\<rfloor>; d = x - of_int f
      in if d < 1 / 2 then f
         else if 1 / 2 < d then f + 1
         else if even f then f else f + 1)"

text \<open>\<open>round(x, 2)\<close>\<close>

definition py_round2 :: "real \<Rightarrow> real" where
  "py_round2 x = of_int (round_half_even (x * 100)) / 100"

subsection \<open>Addition of binary64 floats\<close>

text \<open>
  The exponent of the binade of \<open>a\<close>: the \<open>e\<close> with \<open>2 ^ e \<le> a < 2 ^ (e + 1)\<close>,
  and \<open>-1022\<close> for the subnormal numbers and for 0. It is searched upwards from 0 when
  \<open>1 \<le> a\<close> and downwards from \<open>-1\<close> otherwise.
\<close>

fun exponent_up :: "nat \<Rightarrow> int \<Rightarrow> real \<Rightarrow> int" where
  "exponent_up 0 e a = e"
| "exponent_up (Suc n) e a = (if a < 2 powi (e + 1) then e else exponent_up n (e + 1) a)"

fun exponent_down :: "nat \<Rightarrow> int \<Rightarrow> real \<Rightarrow> int" where
  "exponent_down 0 e a = e"
| "exponent_down (Suc n) e a = (if 2 powi e \<le> a then e else exponent_down n (e - 1) a)"

definition binade :: "real \<Rightarrow> int" where
  "binade a = (if 1 \<le> a then exponent_up 1023 0 a else exponent_down 1021 (- 1) a)"

text \<open>
  The nearest double: a double of the binade \<open>e\<close> is a multiple of \<open>2 ^ (e - 52)\<close>, and
  a tie goes to the even multiple.
\<close>

definition round_to_double :: "real \<Rightarrow> real" where
  "round_to_double x =
     (let q = 2 powi (binade \<bar>x\<bar> - 52) in of_int (round_half_even (x / q)) * q)"

text \<open>\<open>a + b\<close> on floats.\<close>

definition float_add :: "real \<Rightarrow> real \<Rightarrow> real" where
  "float_add a b = round_to_double (a + b)"

subsection \<open>calculate_total_distance_for_day\<close>

text \<open>
  The body of the \<open>for i in range(len(coords) - 1)\<close> loop: the \<open>try\<close> adds the
  distance of the pair \<open>(coords[i], coords[i + 1])\<close>, the \<open>except\<close> leaves the
  total as it is.
\<close>

definition day_step :: "geodesic_fn \<Rightarrow> coord list \<Rightarrow> nat \<Rightarrow> real \<Rightarrow> real" where
  "day_step geodesic coords i total_km =
     (case geodesic (coords ! i) (coords ! (i + 1)) of
        Some km \<Rightarrow> float_add total_km km
      | None \<Rightarrow> total_km)"

definition calculate_total_distance_for_day :: "geodesic_fn \<Rightarrow> coord list \<Rightarrow> real" where
  "calculate_total_distance_for_day geodesic coords =
     (if coords = [] \<or> length coords \<le> 1 then 0
      else py_round2 (fold (day_step geodesic coords) [0 ..< length coords - 1] 0))"

text \<open>
  The distances of the consecutive pairs on which geopy succeeds, in the order of the
  visits.
\<close>

definition leg_distances :: "geodesic_fn \<Rightarrow> coord list \<Rightarrow> real list" where
  "leg_distances geodesic coords =
     List.map_filter (\<lambda>i. geodesic (coords ! i) (coords ! (i + 1))) [0 ..< length coords - 1]"

text \<open>The sum of a list of floats, added from left to right to 0.0.\<close>

definition float_sum :: "real list \<Rightarrow> real" where
  "float_sum kms = foldl float_add 0 kms"

subsection \<open>Data frames\<close>

text \<open>
  A cell of the sheet is a number, a text or blank; pandas reads a blank cell as the
  float NaN, which is its missing value. Python ints and floats are not told apart:
  they compare and hash by value, and only their text (\<open>str_of_float\<close>) differs.
  Cells of other kinds (booleans, dates) are not modelled.
\<close>

datatype cell = Flt pyfloat | Str string

type_synonym row = "string \<Rightarrow> cell"

record dataframe =
  columns :: "string list"
  rows :: "row list"

text \<open>The exceptions that can leave \<open>calculate_monthly_distance\<close>.\<close>

datatype exn = ValueError | OverflowError

text \<open>
  The library calls of the module.
  \<^item> \<open>read_excel\<close>: \<open>pd.read_excel(file_path)\<close>; \<open>Inl e\<close> is an exception with the text \<open>e\<close>.
  \<^item> \<open>geopy_geodesic\<close>: \<open>geodesic(a, b).km\<close>.
  \<^item> \<open>float_of_str\<close>: Python's \<open>float(s)\<close> on a text, \<open>None\<close> for ValueError.
  \<^item> \<open>to_numeric_str\<close>: \<open>pd.to_numeric\<close> with \<open>errors="coerce"\<close> on a text, NaN when
    the text is no number.
  \<^item> \<open>int_of_str\<close>: Python's \<open>int(s)\<close> on a text, \<open>None\<close> for ValueError.
  \<^item> \<open>str_of_float\<close>: Python's \<open>str(x)\<close> on a number.
\<close>

record libs =
  read_excel :: "string \<Rightarrow> string + dataframe"
  geopy_geodesic :: geodesic_fn
  float_of_str :: "string \<Rightarrow> pyfloat option"
  to_numeric_str :: "string \<Rightarrow> pyfloat"
  int_of_str :: "string \<Rightarrow> int option"
  str_of_float :: "pyfloat \<Rightarrow> string"

text \<open>\<open>pd.isna\<close>\<close>

definition isna :: "cell \<Rightarrow> bool" where
  "isna c = (c = Flt NanF)"

text \<open>\<open>df.dropna(subset=...)\<close>\<close>

definition dropna :: "string list \<Rightarrow> row list \<Rightarrow> row list" where
  "dropna cols rs = filter (\<lambda>r. list_all (\<lambda>c. \<not> isna (r c)) cols) rs"

text \<open>\<open>pd.to_numeric(..., errors="coerce")\<close> on one cell.\<close>

fun to_numeric :: "libs \<Rightarrow> cell \<Rightarrow> cell" where
  "to_numeric L (Flt f) = Flt f"
| "to_numeric L (Str s) = Flt (to_numeric_str L s)"

text \<open>
  \<open>df["VISIT_ORDER"] = pd.to_numeric(df["VISIT_ORDER"], errors="coerce")\<close>; with
  \<open>errors="coerce"\<close> the call raises on no cell, so the \<open>except\<close> around it is
  never taken.
\<close>

definition coerce_visit_order :: "libs \<Rightarrow> row list \<Rightarrow> row list" where
  "coerce_visit_order L rs =
     map (\<lambda>r. r(''VISIT_ORDER'' := to_numeric L (r ''VISIT_ORDER''))) rs"

text \<open>
  The order \<open>sort_values\<close> gives the cells of one column: numbers by value, then
  texts by code points, missing values last.
\<close>

fun cell_rank :: "cell \<Rightarrow> nat \<times> real \<times> string" where
  "cell_rank (Flt NegInf) = (0, 0, [])"
| "cell_rank (Flt (Fin x)) = (1, x, [])"
| "cell_rank (Flt PosInf) = (2, 0, [])"
| "cell_rank (Str s) = (3, 0, s)"
| "cell_rank (Flt NanF) = (4, 0, [])"

text \<open>
  \<open>df.sort_values(by=...)\<close> on several columns: lexicographic and stable. With
  several columns pandas ranks the values of each column first, so a column that mixes
  numbers and texts is sorted as well and nothing is raised.
\<close>

definition sort_values :: "string list \<Rightarrow> row list \<Rightarrow> row list" where
  "sort_values by_cols rs = sort_key (\<lambda>r. map (\<lambda>c. cell_rank (r c)) by_cols) rs"

text \<open>
  \<open>groupby(..., sort=False)\<close>: the groups in the order of their first row, each with
  its rows in the order of the frame.
\<close>

function group_rows :: "('r \<Rightarrow> 'k) \<Rightarrow> 'r list \<Rightarrow> ('k \<times> 'r list) list" where
  "group_rows key [] = []"
| "group_rows key (r # rs) =
     (key r, r # filter (\<lambda>x. key x = key r) rs)
       # group_rows key (filter (\<lambda>x. key x \<noteq> key r) rs)"
  by pat_completeness auto
termination
  by (relation "measure (\<lambda>(key, rs). length rs)") (auto simp: less_Suc_eq_le)

type_synonym day_key = "cell \<times> cell \<times> cell \<times> cell"

definition day_key :: "row \<Rightarrow> day_key" where
  "day_key r = (r ''SO NAME'', r ''SO_ERP_ID'', r ''WEEK'', r ''DAY'')"

text \<open>
  \<open>df.groupby(["SO NAME", "SO_ERP_ID", "WEEK", "DAY"], sort=False)\<close>: pandas leaves
  out the rows with a missing value in a key column.
\<close>

definition groupby :: "row list \<Rightarrow> (day_key \<times> row list) list" where
  "groupby rs =
     group_rows day_key
       (dropna [''SO NAME'', ''SO_ERP_ID'', ''WEEK'', ''DAY''] rs)"

subsection \<open>Conversions of Python\<close>

fun cell_float :: "libs \<Rightarrow> cell \<Rightarrow> pyfloat option" where
  "cell_float L (Flt f) = Some f"
| "cell_float L (Str s) = float_of_str L s"

text \<open>\<open>series.astype(float)\<close>: raises at the first cell that is no number.\<close>

fun astype_float :: "libs \<Rightarrow> cell list \<Rightarrow> exn + pyfloat list" where
  "astype_float L [] = Inr []"
| "astype_float L (c # cs) =
     (case cell_float L c of
        None \<Rightarrow> Inl ValueError
      | Some f \<Rightarrow>
          (case astype_float L cs of
             Inl e \<Rightarrow> Inl e
           | Inr fs \<Rightarrow> Inr (f # fs)))"

text \<open>\<open>int(x)\<close> on a float truncates towards zero.\<close>

definition trunc :: "real \<Rightarrow> int" where
  "trunc x = (if 0 \<le> x then \<lfloor>x\<rfloor> else \<lceil>x\<rceil>)"

fun py_int :: "libs \<Rightarrow> cell \<Rightarrow> exn + int" where
  "py_int L (Flt (Fin x)) = Inr (trunc x)"
| "py_int L (Flt NanF) = Inl ValueError"
| "py_int L (Flt PosInf) = Inl OverflowError"
| "py_int L (Flt NegInf) = Inl OverflowError"
| "py_int L (Str s) = (case int_of_str L s of None \<Rightarrow> Inl ValueError | Some i \<Rightarrow> Inr i)"

fun py_str :: "libs \<Rightarrow> cell \<Rightarrow> string" where
  "py_str L (Flt f) = str_of_float L f"
| "py_str L (Str s) = s"

text \<open>\<open>str.lower()\<close> on the code points below 256.\<close>

definition char_lower :: "char \<Rightarrow> char" where
  "char_lower c =
     (let n = (of_char c :: nat)
      in if (65 \<le> n \<and> n \<le> 90) \<or> (192 \<le> n \<and> n \<le> 222 \<and> n \<noteq> 215)
         then char_of (n + 32) else c)"

definition py_lower :: "string \<Rightarrow> string" where
  "py_lower s = map char_lower s"

subsection \<open>calculate_monthly_distance\<close>

record day_result =
  so_name :: cell
  so_erp_id :: cell
  week :: "int option"
  day :: string
  distance_km :: real
  outlets_visited :: nat

record summary_entry =
  s_so_name :: cell
  s_so_erp_id :: cell
  total_monthly_distance_km :: real

text \<open>
  The returned dict: \<open>{"status": "error", "message": m}\<close> or
  \<open>{"status": "success", "summary": s, "daily_breakdown": d}\<close>.
\<close>

datatype result =
  Status_error string
| Status_success "summary_entry list" "day_result list"

definition required_cols :: "string list" where
  "required_cols =
     [''SO NAME'', ''SO_ERP_ID'', ''Latitude'', ''Longitude'', ''WEEK'', ''DAY'', ''VISIT_ORDER'']"

text \<open>The loop over \<open>required_cols\<close>: it returns at the first column that is missing.\<close>

fun check_required :: "string list \<Rightarrow> string list \<Rightarrow> string option" where
  "check_required [] cols = None"
| "check_required (col # rest) cols =
     (if col \<notin> set cols then Some (''Missing column: '' @ col)
      else check_required rest cols)"

text \<open>
  \<open>results[(so_name, so_erp)] += total_km\<close> on a \<open>defaultdict(float)\<close>: a dict keeps
  its keys in the order of their insertion.
\<close>

fun add_to :: "('k \<times> real) list \<Rightarrow> 'k \<Rightarrow> real \<Rightarrow> ('k \<times> real) list" where
  "add_to [] k v = [(k, 0 + v)]"
| "add_to ((k', t) # kvs) k v =
     (if k' = k then (k', t + v) # kvs else (k', t) # add_to kvs k v)"

text \<open>\<open>int(week) if not pd.isna(week) else week\<close>; \<open>None\<close> is the NaN that is passed on.\<close>

definition week_value :: "libs \<Rightarrow> cell \<Rightarrow> exn + int option" where
  "week_value L w =
     (if \<not> isna w then (case py_int L w of Inl e \<Rightarrow> Inl e | Inr i \<Rightarrow> Inr (Some i))
      else Inr None)"

text \<open>The loop over the day groups, with the dict \<open>results\<close> and the list \<open>detailed\<close>.\<close>

fun group_loop ::
  "libs \<Rightarrow> (day_key \<times> row list) list \<Rightarrow> ((cell \<times> cell) \<times> real) list \<Rightarrow> day_result list
    \<Rightarrow> exn + (((cell \<times> cell) \<times> real) list \<times> day_result list)" where
  "group_loop L [] results detailed = Inr (results, detailed)"
| "group_loop L (((name, erp, wk, dy), grp) # groups) results detailed =
     (case astype_float L (map (\<lambda>r. r ''Latitude'') grp) of
        Inl e \<Rightarrow> Inl e
      | Inr lats \<Rightarrow>
     (case astype_float L (map (\<lambda>r. r ''Longitude'') grp) of
        Inl e \<Rightarrow> Inl e
      | Inr lons \<Rightarrow>
     (let coords = zip lats lons;
          total_km = calculate_total_distance_for_day (geopy_geodesic L) coords;
          results' = add_to results (name, erp) total_km
      in case week_value L wk of
           Inl e \<Rightarrow> Inl e
         | Inr w \<Rightarrow>
             group_loop L groups results'
               (detailed @
                 [\<lparr>so_name = name, so_erp_id = erp, week = w, day = py_str L dy,
                   distance_km = total_km, outlets_visited = length coords\<rparr>]))))"

text \<open>The frame after the rows without coordinates are dropped.\<close>

definition located_rows :: "dataframe \<Rightarrow> row list" where
  "located_rows df = dropna [''Latitude'', ''Longitude''] (rows df)"

text \<open>The day groups: the frame filtered, coerced, sorted and grouped.\<close>

definition day_groups :: "libs \<Rightarrow> dataframe \<Rightarrow> (day_key \<times> row list) list" where
  "day_groups L df =
     (let rs = located_rows df;
          rs = (if ''VISIT_ORDER'' \<in> set (columns df) then coerce_visit_order L rs else rs);
          rs = sort_values [''SO NAME'', ''SO_ERP_ID'', ''WEEK'', ''DAY'', ''VISIT_ORDER''] rs
      in groupby rs)"

definition summary_key :: "libs \<Rightarrow> summary_entry \<Rightarrow> string \<times> string" where
  "summary_key L x = (py_lower (py_str L (s_so_name x)), py_str L (s_so_erp_id x))"

definition total_summary :: "libs \<Rightarrow> ((cell \<times> cell) \<times> real) list \<Rightarrow> summary_entry list" where
  "total_summary L results =
     sort_key (summary_key L)
       (map (\<lambda>((so, erp), dist).
               \<lparr>s_so_name = so, s_so_erp_id = erp,
                total_monthly_distance_km = py_round2 dist\<rparr>) results)"

definition calculate_monthly_distance :: "libs \<Rightarrow> string \<Rightarrow> exn + result" where
  "calculate_monthly_distance L file_path =
     (case read_excel L file_path of
        Inl e \<Rightarrow> Inr (Status_error (''Failed to read Excel file: '' @ e))
      | Inr df \<Rightarrow>
          (case check_required required_cols (columns df) of
             Some msg \<Rightarrow> Inr (Status_error msg)
           | None \<Rightarrow>
               (case group_loop L (day_groups L df) [] [] of
                  Inl e \<Rightarrow> Inl e
                | Inr (results, detailed) \<Rightarrow>
                    Inr (Status_success (total_summary L results) detailed))))"

text \<open>A row written as its cells; a column that is not listed is blank.\<close>

definition mk_row :: "(string \<times> cell) list \<Rightarrow> row" where
  "mk_row kvs c = (case map_of kvs c of Some v \<Rightarrow> v | None \<Rightarrow> Flt NanF)"

subsection \<open>Notions of the specification\<close>

text \<open>The rows of one salesperson-day: the rows with both coordinates and that key.\<close>

definition rows_of_day :: "dataframe \<Rightarrow> day_key \<Rightarrow> row list" where
  "rows_of_day df k =
     (case k of (name, erp, wk, dy) \<Rightarrow>
        filter (\<lambda>r. r ''Latitude'' \<noteq> Flt NanF \<and> r ''Longitude'' \<noteq> Flt NanF
                  \<and> r ''SO NAME'' = name \<and> r ''SO_ERP_ID'' = erp
                  \<and> r ''WEEK'' = wk \<and> r ''DAY'' = dy) (rows df))"

text \<open>A day result and the day group it is made from.\<close>

definition made_from :: "libs \<Rightarrow> day_result \<Rightarrow> day_key \<times> row list \<Rightarrow> bool" where
  "made_from L d kg =
     (case kg of ((name, erp, wk, dy), grp) \<Rightarrow>
        so_name d = name \<and> so_erp_id d = erp \<and> week_value L wk = Inr (week d)
        \<and> day d = py_str L dy \<and> outlets_visited d = length grp)"

definition salesperson :: "day_result \<Rightarrow> cell \<times> cell" where
  "salesperson d = (so_name d, so_erp_id d)"

text \<open>The sum of the day distances of one salesperson.\<close>

definition days_total :: "cell \<times> cell \<Rightarrow> day_result list \<Rightarrow> real" where
  "days_total k ds = (\<Sum>d\<leftarrow>filter (\<lambda>d. salesperson d = k) ds. distance_km d)"

text \<open>The invariant of the group loop: \<open>results\<close> holds, for every salesperson seen so
  far and no other, the sum of the distances of the day results so far.\<close>

definition results_ok :: "((cell \<times> cell) \<times> real) list \<Rightarrow> day_result list \<Rightarrow> bool" where
  "results_ok results detailed =
     (distinct (map fst results)
      \<and> (\<forall>k. map_of results k
             = (if k \<in> salesperson ` set detailed then Some (days_total k detailed) else None)))"

text \<open>A column name occurs in a message.\<close>

definition occurs_in :: "string \<Rightarrow> string \<Rightarrow> bool" where
  "occurs_in name msg =
     list_ex (\<lambda>i. take (length name) (drop i msg) = name) [0 ..< Suc (length msg)]"

subsection \<open>Example data\<close>

text \<open>
  A stand-in for geopy in the examples: 111.193 km for each degree of latitude or
  longitude, and an exception on a coordinate that is not finite.
\<close>

fun demo_geodesic :: geodesic_fn where
  "demo_geodesic (Fin a, Fin b) (Fin c, Fin d) = Some ((\<bar>a - c\<bar> + \<bar>b - d\<bar>) * 111.193)"
| "demo_geodesic _ _ = None"

text \<open>
  A stand-in for geopy that is a table of legs: it raises on every pair that the
  table does not list.
\<close>

definition table_geodesic :: "((coord \<times> coord) \<times> real) list \<Rightarrow> geodesic_fn" where
  "table_geodesic legs a b = map_of legs (a, b)"

text \<open>The doubles that Python writes 50.336 and 33.609.\<close>

definition km_50_336 :: real where
  "km_50_336 = 3542081106926895 / 2 ^ 46"

definition km_33_609 :: real where
  "km_33_609 = 4730046246134219 / 2 ^ 47"

definition three_stops :: "coord list" where
  "three_stops = [(Fin 10, Fin 76), (Fin 10.4, Fin 76.1), (Fin 10.6, Fin 76.3)]"

definition four_stops :: "coord list" where
  "four_stops = [(Fin 10, Fin 76), (Fin 10.4, Fin 76.1), (Fin 11, Fin 77), (Fin 11.2, Fin 77.2)]"

text \<open>Libraries that read the given frame from any path and take no text for a number.\<close>

definition demo_libs :: "dataframe \<Rightarrow> libs" where
  "demo_libs df =
     \<lparr>read_excel = (\<lambda>p. Inr df), geopy_geodesic = demo_geodesic,
      float_of_str = (\<lambda>s. None), to_numeric_str = (\<lambda>s. NanF),
      int_of_str = (\<lambda>s. None), str_of_float = (\<lambda>f. ''1'')\<rparr>"

definition visit :: "string \<Rightarrow> string \<Rightarrow> cell \<Rightarrow> cell \<Rightarrow> real \<Rightarrow> string \<Rightarrow> real \<Rightarrow> row" where
  "visit name erp lat lon wk dy ord =
     mk_row [(''SO NAME'', Str name), (''SO_ERP_ID'', Str erp), (''Latitude'', lat),
             (''Longitude'', lon), (''WEEK'', Flt (Fin wk)), (''DAY'', Str dy),
             (''VISIT_ORDER'', Flt (Fin ord))]"

text \<open>
  Two salespeople; two visits have no coordinates; the visit order differs from the
  order of the rows.
\<close>

definition demo_frame :: dataframe where
  "demo_frame =
     \<lparr>columns = required_cols @ [''OUTLET''],
      rows =
        [visit ''Bob'' ''E2'' (Flt (Fin 10)) (Flt (Fin 76)) 1 ''Mon'' 2,
         visit ''alice'' ''E1'' (Flt (Fin 11)) (Flt (Fin 76)) 1 ''Mon'' 1,
         visit ''Bob'' ''E2'' (Flt (Fin 10.5)) (Flt (Fin 76)) 1 ''Mon'' 1,
         visit ''alice'' ''E1'' (Flt NanF) (Flt (Fin 76)) 1 ''Mon'' 2,
         visit ''alice'' ''E1'' (Flt (Fin 12)) (Flt (Fin 77)) 2 ''Tue'' 2,
         visit ''alice'' ''E1'' (Flt (Fin 12)) (Flt (Fin 76.25)) 2 ''Tue'' 1,
         visit ''Bob'' ''E2'' (Flt (Fin 10)) (Flt NanF) 1 ''Mon'' 3,
         visit ''alice'' ''E1'' (Flt (Fin 12.5)) (Flt (Fin 77)) 2 ''Tue'' 3]\<rparr>"

definition demo_summary :: "summary_entry list" where
  "demo_summary =
     [\<lparr>s_so_name = Str ''alice'', s_so_erp_id = Str ''E1'', total_monthly_distance_km = 138.99\<rparr>,
      \<lparr>s_so_name = Str ''Bob'', s_so_erp_id = Str ''E2'', total_monthly_distance_km = 55.6\<rparr>]"

definition demo_breakdown :: "day_result list" where
  "demo_breakdown =
     [\<lparr>so_name = Str ''Bob'', so_erp_id = Str ''E2'', week = Some 1, day = ''Mon'',
       distance_km = 55.6, outlets_visited = 2\<rparr>,
      \<lparr>so_name = Str ''alice'', so_erp_id = Str ''E1'', week = Some 1, day = ''Mon'',
       distance_km = 0, outlets_visited = 1\<rparr>,
      \<lparr>so_name = Str ''alice'', so_erp_id = Str ''E1'', week = Some 2, day = ''Tue'',
       distance_km = 138.99, outlets_visited = 3\<rparr>]"

text \<open>One visit whose latitude is the text \<open>abc\<close>.\<close>

definition text_latitude_frame :: dataframe where
  "text_latitude_frame =
     \<lparr>columns = required_cols,
      rows = [visit ''alice'' ''E1'' (Str ''abc'') (Flt (Fin 76.3)) 1 ''Mon'' 1]\<rparr>"

text \<open>One visit whose week is the text \<open>W1\<close>.\<close>

definition text_week_frame :: dataframe where
  "text_week_frame =
     \<lparr>columns = required_cols,
      rows = [mk_row [(''SO NAME'', Str ''alice''), (''SO_ERP_ID'', Str ''E1''),
                      (''Latitude'', Flt (Fin 10)), (''Longitude'', Flt (Fin 76.3)),
                      (''WEEK'', Str ''W1''), (''DAY'', Str ''Mon''),
                      (''VISIT_ORDER'', Flt (Fin 1))]]\<rparr>"

text \<open>Every visit lacks a coordinate.\<close>

definition no_coordinates_frame :: dataframe where
  "no_coordinates_frame =
     \<lparr>columns = required_cols,
      rows = [visit ''alice'' ''E1'' (Flt NanF) (Flt (Fin 76)) 1 ''Mon'' 1,
              visit ''Bob'' ''E2'' (Flt (Fin 10)) (Flt NanF) 1 ''Mon'' 1,
              visit ''Bob'' ''E2'' (Flt NanF) (Flt NanF) 1 ''Tue'' 1]\<rparr>"

text \<open>A sheet without the columns Longitude, WEEK and VISIT_ORDER.\<close>

definition headless_frame :: dataframe where
  "headless_frame =
     \<lparr>columns = [''SO NAME'', ''SO_ERP_ID'', ''Latitude'', ''DAY'', ''OUTLET''],
      rows = rows text_latitude_frame\<rparr>"

subsection \<open>Rounding\<close>

lemma round_half_even_zero: "round_half_even 0 = 0"
  by (simp add: round_half_even_def)

lemma py_round2_zero: "py_round2 0 = 0"
  by (simp add: py_round2_def round_half_even_zero)

lemma round_half_even_near: "\<bar>of_int (round_half_even x) - x\<bar> \<le> 1 / 2"
proof -
  have "of_int \<lfloor>x\<rfloor> \<le> x" and "x < of_int \<lfloor>x\<rfloor> + 1"
    by linarith+
  then show ?thesis
    by (auto simp: round_half_even_def Let_def)
qed

lemma py_round2_near: "\<bar>py_round2 x - x\<bar> \<le> 1 / 200"
proof -
  have "\<bar>of_int (round_half_even (x * 100)) - x * 100\<bar> \<le> 1 / 2"
    by (rule round_half_even_near)
  then show ?thesis
    by (simp add: py_round2_def field_simps abs_le_iff)
qed

lemma round_half_even_of_int: "round_half_even (of_int k) = k"
  by (simp add: round_half_even_def)

lemma round_to_double_zero: "round_to_double 0 = 0"
  by (simp add: round_to_double_def round_half_even_zero)

subsection \<open>The exponent search finds the binade\<close>

lemma exponent_up_bounds:
  "2 powi e \<le> a \<Longrightarrow> a < 2 powi (e + int n + 1)
    \<Longrightarrow> 2 powi (exponent_up n e a) \<le> a \<and> a < 2 powi (exponent_up n e a + 1)"
proof (induction n arbitrary: e)
  case 0
  then show ?case by simp
next
  case (Suc n)
  show ?case
  proof (cases "a < 2 powi (e + 1)")
    case True
    with Suc.prems show ?thesis by simp
  next
    case False
    have "2 powi (exponent_up n (e + 1) a) \<le> a \<and> a < 2 powi (exponent_up n (e + 1) a + 1)"
    proof (rule Suc.IH)
      show "2 powi (e + 1) \<le> a" using False by simp
      show "a < 2 powi (e + 1 + int n + 1)"
        using Suc.prems(2) by (simp add: add.commute add.left_commute)
    qed
    with False show ?thesis by simp
  qed
qed

lemma exponent_down_bounds:
  "a < 2 powi (e + 1) \<Longrightarrow> 2 powi (e - int n) \<le> a
    \<Longrightarrow> 2 powi (exponent_down n e a) \<le> a \<and> a < 2 powi (exponent_down n e a + 1)"
proof (induction n arbitrary: e)
  case 0
  then show ?case by simp
next
  case (Suc n)
  show ?case
  proof (cases "2 powi e \<le> a")
    case True
    with Suc.prems show ?thesis by simp
  next
    case False
    have "2 powi (exponent_down n (e - 1) a) \<le> a \<and> a < 2 powi (exponent_down n (e - 1) a + 1)"
    proof (rule Suc.IH)
      show "a < 2 powi (e - 1 + 1)" using False by simp
      show "2 powi (e - 1 - int n) \<le> a"
        using Suc.prems(2) by (simp add: algebra_simps)
    qed
    with False show ?thesis by simp
  qed
qed

lemma exponent_down_subnormal:
  "a < 2 powi (e - int n + 1) \<Longrightarrow> exponent_down n e a = e - int n"
proof (induction n arbitrary: e)
  case 0
  show ?case by simp
next
  case (Suc n)
  have "(2::real) powi (e - int (Suc n) + 1) \<le> 2 powi e"
    by (rule power_int_increasing) auto
  with Suc.prems have "\<not> 2 powi e \<le> a"
    by simp
  moreover have "exponent_down n (e - 1) a = e - 1 - int n"
    using Suc.prems by (intro Suc.IH) (simp add: algebra_simps)
  ultimately show ?case by simp
qed

lemma binade_normal:
  assumes "2 powi (- 1022) \<le> a" and "a < 2 powi 1024"
  shows "2 powi (binade a) \<le> a \<and> a < 2 powi (binade a + 1)"
proof (cases "1 \<le> a")
  case True
  have "2 powi (exponent_up 1023 0 a) \<le> a \<and> a < 2 powi (exponent_up 1023 0 a + 1)"
    using True assms(2) by (intro exponent_up_bounds) simp_all
  with True show ?thesis by (simp add: binade_def)
next
  case False
  have "2 powi (exponent_down 1021 (- 1) a) \<le> a \<and> a < 2 powi (exponent_down 1021 (- 1) a + 1)"
    using False assms(1) by (intro exponent_down_bounds) simp_all
  with False show ?thesis by (simp add: binade_def)
qed

lemma binade_subnormal:
  assumes "a < 2 powi (- 1022)"
  shows "binade a = - 1022"
proof -
  have "(2::real) powi (- 1022) \<le> 2 powi 0"
    by (rule power_int_increasing) auto
  then have "\<not> 1 \<le> a"
    using assms by simp
  moreover have "exponent_down 1021 (- 1) a = - 1 - int 1021"
    using assms by (intro exponent_down_subnormal) simp
  ultimately show ?thesis by (simp add: binade_def)
qed

text \<open>A double differs from the number it rounds by at most half a unit of its binade.\<close>

lemma round_to_double_near:
  "\<bar>round_to_double x - x\<bar> \<le> 2 powi (binade \<bar>x\<bar> - 53)"
proof -
  define q :: real where "q = 2 powi (binade \<bar>x\<bar> - 52)"
  define n :: real where "n = of_int (round_half_even (x / q))"
  have q: "0 < q" by (simp add: q_def)
  have rd: "round_to_double x = n * q"
    by (simp add: round_to_double_def q_def n_def Let_def)
  have "\<bar>n - x / q\<bar> \<le> 1 / 2"
    unfolding n_def by (rule round_half_even_near)
  then have "\<bar>n - x / q\<bar> * q \<le> 1 / 2 * q"
    using q by (simp add: mult_right_mono)
  moreover have "(n - x / q) * q = n * q - x"
    using q by (simp add: left_diff_distrib)
  then have "\<bar>n - x / q\<bar> * q = \<bar>n * q - x\<bar>"
    using q by (metis abs_mult abs_of_pos)
  moreover have "1 / 2 * q = 2 powi (binade \<bar>x\<bar> - 53)"
    by (simp add: q_def power_int_diff)
  ultimately show ?thesis
    unfolding rd by simp
qed

lemma round_to_double_relative:
  assumes "2 powi (- 1022) \<le> \<bar>x\<bar>" and "\<bar>x\<bar> < 2 powi 1024"
  shows "\<bar>round_to_double x - x\<bar> \<le> \<bar>x\<bar> * 2 powi (- 53)"
proof -
  define e where "e = binade \<bar>x\<bar>"
  define u :: real where "u = 2 powi (- 53)"
  have u: "0 \<le> u"
    unfolding u_def by (rule zero_le_power_int) simp
  have "2 powi e \<le> \<bar>x\<bar>"
    using binade_normal [OF assms] by (simp only: e_def)
  then have "2 powi e * u \<le> \<bar>x\<bar> * u"
    using u by (rule mult_right_mono)
  moreover have "(2::real) powi (e + (- 53)) = 2 powi e * 2 powi (- 53)"
    by (rule power_int_add) simp
  then have "(2::real) powi (e - 53) = 2 powi e * u"
    by (simp only: u_def diff_conv_add_uminus)
  moreover have "\<bar>round_to_double x - x\<bar> \<le> 2 powi (e - 53)"
    unfolding e_def by (rule round_to_double_near)
  ultimately show ?thesis
    unfolding u_def by linarith
qed

text \<open>
  A double is a number \<open>m * 2 ^ k\<close> with \<open>\<bar>m\<bar> < 2 ^ 53\<close> and \<open>-1074 \<le> k\<close>; the
  rounding leaves it as it is.
\<close>

lemma binade_of_double:
  assumes "\<bar>m\<bar> < 2 ^ 53" and "- 1074 \<le> k" and "\<bar>of_int m * 2 powi k\<bar> < (2::real) powi 1024"
  shows "binade \<bar>of_int m * 2 powi k\<bar> \<le> k + 52"
proof (cases "\<bar>of_int m * 2 powi k\<bar> < (2::real) powi (- 1022)")
  case True
  then have "binade \<bar>of_int m * 2 powi k\<bar> = - 1022"
    by (rule binade_subnormal)
  with assms(2) show ?thesis by simp
next
  case False
  define a :: real where "a = \<bar>of_int m * 2 powi k\<bar>"
  have "2 powi (binade a) \<le> a"
    using binade_normal [of a] False assms(3) by (simp add: a_def)
  moreover have "a = \<bar>of_int m\<bar> * 2 powi k"
    by (simp add: a_def abs_mult)
  moreover have "\<bar>of_int m :: real\<bar> < 2 ^ 53"
    using assms(1) by (metis of_int_abs of_int_less_numeral_power_cancel_iff)
  then have "\<bar>of_int m :: real\<bar> * 2 powi k < 2 ^ 53 * 2 powi k"
    by (simp add: mult_strict_right_mono)
  moreover have "(2::real) ^ 53 * 2 powi k = 2 powi (53 + k)"
    by (simp add: power_int_add)
  ultimately have "(2::real) powi (binade a) < 2 powi (53 + k)"
    by linarith
  moreover have "(2::real) powi (53 + k) \<le> 2 powi (binade a)" if "53 + k \<le> binade a"
    using that by (rule power_int_increasing) simp
  ultimately have "binade a < 53 + k"
    by fastforce
  then show ?thesis
    by (simp add: a_def)
qed

lemma round_to_double_double:
  assumes "\<bar>m\<bar> < 2 ^ 53" and "- 1074 \<le> k" and "\<bar>of_int m * 2 powi k\<bar> < (2::real) powi 1024"
  shows "round_to_double (of_int m * 2 powi k) = of_int m * 2 powi k"
proof -
  define e where "e = binade \<bar>of_int m * 2 powi k\<bar>"
  define n where "n = nat (k + 52 - e)"
  have e: "e \<le> k + 52"
    unfolding e_def using assms by (rule binade_of_double)
  then have k: "k = int n + (e - 52)"
    by (simp add: n_def)
  have split: "(2::real) powi k = 2 ^ n * 2 powi (e - 52)"
    by (subst k) (simp add: power_int_add)
  have "of_int m * 2 powi k / 2 powi (e - 52) = (of_int (m * 2 ^ n) :: real)"
    by (simp add: split)
  then have "round_half_even (of_int m * 2 powi k / 2 powi (e - 52)) = m * 2 ^ n"
    by (simp only: round_half_even_of_int)
  then have "round_to_double (of_int m * 2 powi k) = of_int (m * 2 ^ n) * 2 powi (e - 52)"
    by (simp add: round_to_double_def e_def Let_def)
  also have "\<dots> = of_int m * 2 powi k"
    by (simp add: split)
  finally show ?thesis .
qed

subsection \<open>The day loop sums the legs that succeed\<close>

lemma fold_day_step:
  "fold (day_step geodesic coords) is acc
     = foldl float_add acc
         (List.map_filter (\<lambda>i. geodesic (coords ! i) (coords ! (i + 1))) is)"
  by (induction "is" arbitrary: acc)
    (simp_all add: day_step_def map_filter_simps split: option.split)

lemma day_distance_legs:
  "calculate_total_distance_for_day geodesic coords
     = (if length coords \<le> 1 then 0
        else py_round2 (float_sum (leg_distances geodesic coords)))"
  by (auto simp: calculate_total_distance_for_day_def fold_day_step leg_distances_def
      float_sum_def)

lemma map_filter_all_Some:
  "(\<And>x. x \<in> set xs \<Longrightarrow> f x = Some (g x)) \<Longrightarrow> List.map_filter f xs = map g xs"
  by (induction xs) (simp_all add: map_filter_simps)

text \<open>
  The sum of the floats is not the sum of the reals: on the legs 50.336 and 33.609 it is
  the double below 83.945, which rounds to 83.94, where the exact sum rounds to 83.95.
\<close>

lemma float_sum_two_legs: "float_sum [km_50_336, km_33_609] = 1476776057498501 / 2 ^ 44"
  by code_simp

lemma round_float_sum_two_legs: "py_round2 (float_sum [km_50_336, km_33_609]) = 83.94"
  by code_simp

lemma round_exact_sum_two_legs: "py_round2 (km_50_336 + km_33_609) = 83.95"
  by code_simp

text \<open>
  C6: for the empty sequence and for a single coordinate pair,
  \<open>calculate_total_distance_for_day\<close> returns exactly 0.0.
\<close>

theorem day_distance_short:
  "length coords < 2 \<Longrightarrow> calculate_total_distance_for_day geodesic coords = 0"
  by (simp add: calculate_total_distance_for_day_def)

theorem day_distance_short_witness:
  "length ([] :: coord list) < 2
   \<and> calculate_total_distance_for_day (\<lambda>a b. Some 7) [] = 0
   \<and> length [(Fin 10, Fin 76)] < 2
   \<and> calculate_total_distance_for_day (\<lambda>a b. Some 7) [(Fin 10, Fin 76)] = 0"
  using day_distance_short [of "[]" "\<lambda>a b. Some 7"]
    day_distance_short [of "[(Fin 10, Fin 76)]" "\<lambda>a b. Some 7"]
  by simp

text \<open>
  C2: for two or more coordinate pairs on which every geodesic computation succeeds,
  \<open>calculate_total_distance_for_day\<close> returns the sum of the distances between the
  consecutive pairs, added as floats in the given order, rounded to 2 decimal places.
\<close>

theorem day_distance_is_rounded_path_length:
  assumes "2 \<le> length coords"
    and "\<forall>i. i + 1 < length coords \<longrightarrow> geodesic (coords ! i) (coords ! (i + 1)) = Some (km i)"
  shows "calculate_total_distance_for_day geodesic coords
           = py_round2 (float_sum (map km [0 ..< length coords - 1]))"
proof -
  have "geodesic (coords ! i) (coords ! (i + 1)) = Some (km i)"
    if "i \<in> set [0 ..< length coords - 1]" for i
    using assms(2) that by auto
  then have "leg_distances geodesic coords = map km [0 ..< length coords - 1]"
    unfolding leg_distances_def by (rule map_filter_all_Some)
  moreover have "\<not> length coords \<le> 1"
    using assms(1) by simp
  ultimately show ?thesis
    by (simp add: day_distance_legs)
qed

theorem day_distance_is_rounded_path_length_witness:
  "2 \<le> length three_stops
   \<and> calculate_total_distance_for_day
         (table_geodesic [(((Fin 10, Fin 76), (Fin 10.4, Fin 76.1)), km_50_336),
                          (((Fin 10.4, Fin 76.1), (Fin 10.6, Fin 76.3)), km_33_609)])
         three_stops
       = py_round2 (float_sum [km_50_336, km_33_609])
   \<and> py_round2 (float_sum [km_50_336, km_33_609]) = 83.94"
proof -
  let ?g = "table_geodesic [(((Fin 10, Fin 76), (Fin 10.4, Fin 76.1)), km_50_336),
                            (((Fin 10.4, Fin 76.1), (Fin 10.6, Fin 76.3)), km_33_609)]"
  have len: "2 \<le> length three_stops"
    by (simp add: three_stops_def)
  have ok: "\<forall>i. i + 1 < length three_stops
      \<longrightarrow> ?g (three_stops ! i) (three_stops ! (i + 1)) = Some ([km_50_336, km_33_609] ! i)"
    by (simp add: three_stops_def table_geodesic_def less_Suc_eq)
  have "map ((!) [km_50_336, km_33_609]) [0 ..< length three_stops - 1]
      = [km_50_336, km_33_609]"
    by (simp add: three_stops_def upt_rec)
  with day_distance_is_rounded_path_length [OF len ok] len round_float_sum_two_legs
  show ?thesis
    by simp
qed

text \<open>
  C5: a pair on which the geodesic computation fails adds nothing, the summation goes
  on with the remaining pairs, and the function returns the rounded sum of the pairs
  that succeed, for every list of coordinates; the failure does not reach the caller.
\<close>

theorem day_distance_skips_failed_pairs:
  "calculate_total_distance_for_day geodesic coords
     = py_round2 (float_sum (leg_distances geodesic coords))"
proof (cases "length coords \<le> 1")
  case True
  then have "leg_distances geodesic coords = []"
    by (simp add: leg_distances_def map_filter_simps)
  with True show ?thesis
    by (simp add: day_distance_legs float_sum_def py_round2_zero)
next
  case False
  then show ?thesis
    by (simp add: day_distance_legs)
qed

theorem day_distance_skips_failed_pairs_witness:
  "leg_distances
      (table_geodesic [(((Fin 10, Fin 76), (Fin 10.4, Fin 76.1)), km_50_336),
                       (((Fin 11, Fin 77), (Fin 11.2, Fin 77.2)), km_33_609)])
      four_stops
     = [km_50_336, km_33_609]
   \<and> calculate_total_distance_for_day
        (table_geodesic [(((Fin 10, Fin 76), (Fin 10.4, Fin 76.1)), km_50_336),
                         (((Fin 11, Fin 77), (Fin 11.2, Fin 77.2)), km_33_609)])
        four_stops
       = 83.94"
proof -
  let ?g = "table_geodesic [(((Fin 10, Fin 76), (Fin 10.4, Fin 76.1)), km_50_336),
                            (((Fin 11, Fin 77), (Fin 11.2, Fin 77.2)), km_33_609)]"
  have legs: "leg_distances ?g four_stops = [km_50_336, km_33_609]"
    by (simp add: leg_distances_def four_stops_def table_geodesic_def map_filter_simps upt_rec)
  with day_distance_skips_failed_pairs [of ?g four_stops] round_float_sum_two_legs
  show ?thesis
    by simp
qed

subsection \<open>The check of the required columns\<close>

lemma check_required_None: "check_required req cols = None \<longleftrightarrow> set req \<subseteq> set cols"
  by (induction req) auto

lemma check_required_first:
  "i < length req \<Longrightarrow> req ! i \<notin> set cols \<Longrightarrow> (\<forall>j<i. req ! j \<in> set cols)
    \<Longrightarrow> check_required req cols = Some (''Missing column: '' @ req ! i)"
proof (induction req arbitrary: i)
  case Nil
  then show ?case by simp
next
  case (Cons c req)
  show ?case
  proof (cases i)
    case 0
    with Cons.prems show ?thesis by simp
  next
    case (Suc k)
    have "c \<in> set cols"
      using Cons.prems(3) Suc by force
    moreover have "check_required req cols = Some (''Missing column: '' @ req ! k)"
    proof (rule Cons.IH)
      show "k < length req" using Cons.prems(1) Suc by simp
      show "req ! k \<notin> set cols" using Cons.prems(2) Suc by simp
      show "\<forall>j<k. req ! j \<in> set cols"
        using Cons.prems(3) Suc by force
    qed
    ultimately show ?thesis
      using Suc by simp
  qed
qed

lemma check_required_Some:
  "check_required req cols = Some msg
    \<Longrightarrow> \<exists>c. c \<in> set req \<and> c \<notin> set cols \<and> msg = ''Missing column: '' @ c"
  by (induction req) (auto split: if_splits)

lemma missing_column_result:
  assumes "read_excel L file_path = Inr df"
    and "check_required required_cols (columns df) = Some msg"
  shows "calculate_monthly_distance L file_path = Inr (Status_error msg)"
  using assms by (simp add: calculate_monthly_distance_def)

lemma demo_read: "read_excel (demo_libs df) file_path = Inr df"
  by (simp add: demo_libs_def)

text \<open>
  C4: for a dataset that lacks at least one of the 7 required columns,
  \<open>calculate_monthly_distance\<close> returns status "error" with a message that names a
  missing column and no summary or breakdown; the result is fixed by the header alone,
  whatever the rows and the libraries are, so no row is filtered, sorted, grouped or
  measured.
\<close>

theorem missing_column_fails_fast:
  assumes "read_excel L file_path = Inr df"
    and "\<not> set required_cols \<subseteq> set (columns df)"
    and "read_excel L' file_path' = Inr df'"
    and "columns df' = columns df"
  shows "\<exists>c. c \<in> set required_cols \<and> c \<notin> set (columns df)
           \<and> calculate_monthly_distance L file_path
               = Inr (Status_error (''Missing column: '' @ c))
           \<and> calculate_monthly_distance L' file_path'
               = Inr (Status_error (''Missing column: '' @ c))"
proof -
  obtain msg where msg: "check_required required_cols (columns df) = Some msg"
    using assms(2) check_required_None [of required_cols "columns df"] by auto
  then obtain c where c: "c \<in> set required_cols" "c \<notin> set (columns df)"
      "msg = ''Missing column: '' @ c"
    using check_required_Some by blast
  have "calculate_monthly_distance L file_path = Inr (Status_error msg)"
    using assms(1) msg by (rule missing_column_result)
  moreover have "calculate_monthly_distance L' file_path' = Inr (Status_error msg)"
    using assms(3) msg assms(4) by (simp add: missing_column_result)
  ultimately show ?thesis
    using c by blast
qed

theorem missing_column_fails_fast_witness:
  "read_excel (demo_libs headless_frame) ''routes.xlsx'' = Inr headless_frame
   \<and> \<not> set required_cols \<subseteq> set (columns headless_frame)
   \<and> read_excel (demo_libs (headless_frame\<lparr>rows := []\<rparr>)) ''empty.xlsx''
       = Inr (headless_frame\<lparr>rows := []\<rparr>)
   \<and> (\<exists>c. c \<in> set required_cols \<and> c \<notin> set (columns headless_frame)
          \<and> calculate_monthly_distance (demo_libs headless_frame) ''routes.xlsx''
              = Inr (Status_error (''Missing column: '' @ c))
          \<and> calculate_monthly_distance (demo_libs (headless_frame\<lparr>rows := []\<rparr>)) ''empty.xlsx''
              = Inr (Status_error (''Missing column: '' @ c)))"
proof -
  have h1: "read_excel (demo_libs headless_frame) ''routes.xlsx'' = Inr headless_frame"
    by (rule demo_read)
  have h2: "\<not> set required_cols \<subseteq> set (columns headless_frame)"
    by (simp add: required_cols_def headless_frame_def)
  have h3: "read_excel (demo_libs (headless_frame\<lparr>rows := []\<rparr>)) ''empty.xlsx''
       = Inr (headless_frame\<lparr>rows := []\<rparr>)"
    by (rule demo_read)
  have h4: "columns (headless_frame\<lparr>rows := []\<rparr>) = columns headless_frame"
    by simp
  from missing_column_fails_fast [OF h1 h2 h3 h4] h1 h2 h3 show ?thesis
    by blast
qed

lemma other_columns_not_named:
  "list_all (\<lambda>i. list_all (\<lambda>c. c = required_cols ! i
       \<or> \<not> occurs_in c (''Missing column: '' @ required_cols ! i)) required_cols) [0 ..< 7]"
  by code_simp

lemma length_required_cols: "length required_cols = 7"
  by (simp add: required_cols_def)

text \<open>
  C10: when several required columns are missing, the error names the first missing
  one in the order SO NAME, SO_ERP_ID, Latitude, Longitude, WEEK, DAY, VISIT_ORDER; the
  message is exactly "Missing column: " followed by that name, and no other required
  column occurs in it.
\<close>

theorem names_only_first_missing_column:
  assumes "read_excel L file_path = Inr df"
    and "i < length required_cols"
    and "required_cols ! i \<notin> set (columns df)"
    and "\<forall>j<i. required_cols ! j \<in> set (columns df)"
  shows "calculate_monthly_distance L file_path
           = Inr (Status_error (''Missing column: '' @ required_cols ! i))
         \<and> (\<forall>c \<in> set required_cols. c \<noteq> required_cols ! i
              \<longrightarrow> \<not> occurs_in c (''Missing column: '' @ required_cols ! i))"
proof
  have "check_required required_cols (columns df)
          = Some (''Missing column: '' @ required_cols ! i)"
    using assms(2-4) by (rule check_required_first)
  with assms(1) show "calculate_monthly_distance L file_path
      = Inr (Status_error (''Missing column: '' @ required_cols ! i))"
    by (rule missing_column_result)
next
  have "i \<in> set [0 ..< 7]"
    using assms(2) by (simp add: length_required_cols)
  then show "\<forall>c \<in> set required_cols. c \<noteq> required_cols ! i
      \<longrightarrow> \<not> occurs_in c (''Missing column: '' @ required_cols ! i)"
    using other_columns_not_named unfolding list_all_iff by blast
qed

theorem names_only_first_missing_column_witness:
  "read_excel (demo_libs headless_frame) ''routes.xlsx'' = Inr headless_frame
   \<and> required_cols ! 3 = ''Longitude''
   \<and> ''Longitude'' \<notin> set (columns headless_frame)
   \<and> ''WEEK'' \<notin> set (columns headless_frame)
   \<and> ''VISIT_ORDER'' \<notin> set (columns headless_frame)
   \<and> calculate_monthly_distance (demo_libs headless_frame) ''routes.xlsx''
       = Inr (Status_error ''Missing column: Longitude'')
   \<and> \<not> occurs_in ''WEEK'' ''Missing column: Longitude''
   \<and> \<not> occurs_in ''VISIT_ORDER'' ''Missing column: Longitude''"
proof -
  have h1: "read_excel (demo_libs headless_frame) ''routes.xlsx'' = Inr headless_frame"
    by (rule demo_read)
  have h2: "3 < length required_cols"
    by (simp add: required_cols_def)
  have r3: "required_cols ! 3 = ''Longitude''"
    by (simp add: required_cols_def)
  have h3: "required_cols ! 3 \<notin> set (columns headless_frame)"
    by (simp add: required_cols_def headless_frame_def)
  have h4: "\<forall>j<3. required_cols ! j \<in> set (columns headless_frame)"
    by (simp add: required_cols_def headless_frame_def less_Suc_eq numeral_3_eq_3)
  have others: "''WEEK'' \<in> set required_cols" "''VISIT_ORDER'' \<in> set required_cols"
    "''WEEK'' \<notin> set (columns headless_frame)" "''VISIT_ORDER'' \<notin> set (columns headless_frame)"
    by (simp_all add: required_cols_def headless_frame_def)
  from names_only_first_missing_column [OF h1 h2 h3 h4] h1 r3 h3 others show ?thesis
    by auto
qed

subsection \<open>Frames without coordinates\<close>

lemma dropna_all_missing:
  assumes "\<forall>r \<in> set rs. isna (r ''Latitude'') \<or> isna (r ''Longitude'')"
  shows "dropna [''Latitude'', ''Longitude''] rs = []"
  using assms by (auto simp: dropna_def filter_empty_conv)

lemma day_groups_no_rows:
  assumes "located_rows df = []"
  shows "day_groups L df = []"
  using assms
  by (simp add: day_groups_def coerce_visit_order_def sort_values_def groupby_def dropna_def)

text \<open>
  C9: for a readable dataset with all required columns in which every row lacks its
  latitude or its longitude, \<open>calculate_monthly_distance\<close> returns status "success"
  with an empty summary and an empty daily breakdown.
\<close>

theorem all_rows_without_coordinates:
  assumes "read_excel L file_path = Inr df"
    and "set required_cols \<subseteq> set (columns df)"
    and "\<forall>r \<in> set (rows df). isna (r ''Latitude'') \<or> isna (r ''Longitude'')"
  shows "calculate_monthly_distance L file_path = Inr (Status_success [] [])"
proof -
  have "check_required required_cols (columns df) = None"
    using assms(2) by (simp add: check_required_None)
  moreover have "day_groups L df = []"
    using assms(3) by (simp add: day_groups_no_rows located_rows_def dropna_all_missing)
  ultimately show ?thesis
    using assms(1) by (simp add: calculate_monthly_distance_def total_summary_def)
qed

theorem all_rows_without_coordinates_witness:
  "read_excel (demo_libs no_coordinates_frame) ''routes.xlsx'' = Inr no_coordinates_frame
   \<and> set required_cols \<subseteq> set (columns no_coordinates_frame)
   \<and> length (rows no_coordinates_frame) = 3
   \<and> calculate_monthly_distance (demo_libs no_coordinates_frame) ''routes.xlsx''
       = Inr (Status_success [] [])"
proof -
  have h1: "read_excel (demo_libs no_coordinates_frame) ''routes.xlsx'' = Inr no_coordinates_frame"
    by (rule demo_read)
  have h2: "set required_cols \<subseteq> set (columns no_coordinates_frame)"
    by (simp add: no_coordinates_frame_def)
  have h3: "\<forall>r \<in> set (rows no_coordinates_frame). isna (r ''Latitude'') \<or> isna (r ''Longitude'')"
    by (simp add: no_coordinates_frame_def visit_def mk_row_def isna_def)
  have "length (rows no_coordinates_frame) = 3"
    by (simp add: no_coordinates_frame_def)
  with all_rows_without_coordinates [OF h1 h2 h3] h1 h2 show ?thesis
    by simp
qed

subsection \<open>Grouping\<close>

lemma group_rows_keys: "(k, g) \<in> set (group_rows key rs) \<Longrightarrow> k \<in> key ` set rs"
  by (induction key rs rule: group_rows.induct) auto

lemma group_rows_group:
  "(k, g) \<in> set (group_rows key rs) \<Longrightarrow> g = filter (\<lambda>r. key r = k) rs"
proof (induction key rs rule: group_rows.induct)
  case (1 key)
  then show ?case by simp
next
  case (2 key r rs)
  show ?case
  proof (cases "k = key r")
    case True
    have "(k, g') \<notin> set (group_rows key (filter (\<lambda>x. key x \<noteq> key r) rs))" for g'
      using group_rows_keys [of k g' key "filter (\<lambda>x. key x \<noteq> key r) rs"] True by auto
    with "2.prems" True show ?thesis by auto
  next
    case False
    with "2.prems" have "(k, g) \<in> set (group_rows key (filter (\<lambda>x. key x \<noteq> key r) rs))"
      by auto
    then have "g = filter (\<lambda>x. key x = k) (filter (\<lambda>x. key x \<noteq> key r) rs)"
      by (rule "2.IH")
    also have "\<dots> = filter (\<lambda>x. key x = k) rs"
      using False by (auto intro: filter_cong)
    finally show ?thesis
      using False by auto
  qed
qed

lemma group_rows_distinct: "distinct (map fst (group_rows key rs))"
proof (induction key rs rule: group_rows.induct)
  case (1 key)
  show ?case by simp
next
  case (2 key r rs)
  have "key r \<notin> fst ` set (group_rows key (filter (\<lambda>x. key x \<noteq> key r) rs))"
    using group_rows_keys [of "key r" _ key "filter (\<lambda>x. key x \<noteq> key r) rs"] by force
  with 2 show ?case by simp
qed

lemma length_filter_sort_key:
  "length (filter P (sort_key f xs)) = length (filter P xs)"
proof -
  have "mset (filter P (sort_key f xs)) = mset (filter P xs)"
    by simp
  then show ?thesis
    by (metis size_mset)
qed

lemma day_key_coerced:
  "day_key (r(''VISIT_ORDER'' := v)) = day_key r"
  by (simp add: day_key_def)

lemma filter_coerce_visit_order:
  "length (filter (\<lambda>r. day_key r = k) (coerce_visit_order L rs))
     = length (filter (\<lambda>r. day_key r = k) rs)"
  by (induction rs) (simp_all add: coerce_visit_order_def day_key_coerced)

lemma groupby_group:
  assumes "(k, g) \<in> set (groupby rs)"
  shows "g = filter (\<lambda>r. day_key r = k) rs"
proof -
  let ?keys = "[''SO NAME'', ''SO_ERP_ID'', ''WEEK'', ''DAY'']"
  have g: "g = filter (\<lambda>r. day_key r = k) (dropna ?keys rs)"
    using assms unfolding groupby_def by (rule group_rows_group)
  have "k \<in> day_key ` set (dropna ?keys rs)"
    using assms unfolding groupby_def by (rule group_rows_keys)
  then obtain r0 where r0: "day_key r0 = k" "list_all (\<lambda>c. \<not> isna (r0 c)) ?keys"
    by (auto simp: dropna_def)
  have "list_all (\<lambda>c. \<not> isna (r c)) ?keys" if "day_key r = k" for r
    using r0 that by (auto simp: day_key_def)
  then have "filter (\<lambda>r. day_key r = k) (dropna ?keys rs) = filter (\<lambda>r. day_key r = k) rs"
    unfolding dropna_def filter_filter by (intro filter_cong) auto
  with g show ?thesis by simp
qed

lemma day_groups_group_size:
  assumes "(k, g) \<in> set (day_groups L df)"
  shows "length g = length (filter (\<lambda>r. day_key r = k) (located_rows df))"
proof -
  let ?by = "[''SO NAME'', ''SO_ERP_ID'', ''WEEK'', ''DAY'', ''VISIT_ORDER'']"
  let ?rs = "if ''VISIT_ORDER'' \<in> set (columns df)
             then coerce_visit_order L (located_rows df) else located_rows df"
  have "(k, g) \<in> set (groupby (sort_values ?by ?rs))"
    using assms by (simp add: day_groups_def Let_def)
  then have "g = filter (\<lambda>r. day_key r = k) (sort_values ?by ?rs)"
    by (rule groupby_group)
  then have "length g = length (filter (\<lambda>r. day_key r = k) ?rs)"
    by (simp add: sort_values_def length_filter_sort_key)
  then show ?thesis
    by (simp add: filter_coerce_visit_order split: if_splits)
qed

lemma day_groups_distinct: "distinct (map fst (day_groups L df))"
  by (simp add: day_groups_def Let_def groupby_def group_rows_distinct)

subsection \<open>The group loop\<close>

lemma length_astype_float: "astype_float L cs = Inr fs \<Longrightarrow> length fs = length cs"
  by (induction cs arbitrary: fs) (auto split: option.splits sum.splits)

lemma group_loop_step:
  assumes "group_loop L (((name, erp, wk, dy), grp) # groups) results detailed = Inr out"
  obtains w km where "week_value L wk = Inr w"
    and "group_loop L groups (add_to results (name, erp) km)
           (detailed @ [\<lparr>so_name = name, so_erp_id = erp, week = w, day = py_str L dy,
              distance_km = km, outlets_visited = length grp\<rparr>]) = Inr out"
proof -
  from assms obtain lats lons w where
    lats: "astype_float L (map (\<lambda>r. r ''Latitude'') grp) = Inr lats"
    and lons: "astype_float L (map (\<lambda>r. r ''Longitude'') grp) = Inr lons"
    and w: "week_value L wk = Inr w"
    and rest: "group_loop L groups
       (add_to results (name, erp) (calculate_total_distance_for_day (geopy_geodesic L) (zip lats lons)))
       (detailed @ [\<lparr>so_name = name, so_erp_id = erp, week = w, day = py_str L dy,
          distance_km = calculate_total_distance_for_day (geopy_geodesic L) (zip lats lons),
          outlets_visited = length (zip lats lons)\<rparr>]) = Inr out"
    by (auto simp: Let_def split: sum.splits)
  have "length (zip lats lons) = length grp"
    using length_astype_float [OF lats] length_astype_float [OF lons] by simp
  with w rest that show thesis
    by simp
qed

lemma group_loop_detailed:
  "group_loop L groups results detailed = Inr (results', detailed')
    \<Longrightarrow> \<exists>new. detailed' = detailed @ new \<and> list_all2 (made_from L) new groups"
proof (induction groups arbitrary: results detailed)
  case Nil
  then show ?case by simp
next
  case (Cons kg groups)
  obtain name erp wk dy grp where kg: "kg = ((name, erp, wk, dy), grp)"
    by (metis prod_cases4 surj_pair)
  from Cons.prems obtain w km where w: "week_value L wk = Inr w"
    and rest: "group_loop L groups (add_to results (name, erp) km)
           (detailed @ [\<lparr>so_name = name, so_erp_id = erp, week = w, day = py_str L dy,
              distance_km = km, outlets_visited = length grp\<rparr>]) = Inr (results', detailed')"
    unfolding kg by (rule group_loop_step)
  let ?d = "\<lparr>so_name = name, so_erp_id = erp, week = w, day = py_str L dy,
              distance_km = km, outlets_visited = length grp\<rparr>"
  from Cons.IH [OF rest] obtain new where new: "detailed' = (detailed @ [?d]) @ new"
    "list_all2 (made_from L) new groups"
    by blast
  have "made_from L ?d kg"
    using w by (simp add: made_from_def kg)
  with new have "detailed' = detailed @ (?d # new) \<and> list_all2 (made_from L) (?d # new) (kg # groups)"
    by simp
  then show ?case by blast
qed

lemma add_to_keys: "fst ` set (add_to kvs k v) = insert k (fst ` set kvs)"
  by (induction kvs k v rule: add_to.induct) auto

lemma add_to_distinct: "distinct (map fst kvs) \<Longrightarrow> distinct (map fst (add_to kvs k v))"
proof (induction kvs k v rule: add_to.induct)
  case (1 k v)
  show ?case by simp
next
  case (2 k' t kvs k v)
  then show ?case
    using add_to_keys [of kvs k v] by (auto simp: image_iff)
qed

lemma map_of_add_to:
  "map_of (add_to kvs k v) k'
     = (if k' = k then Some ((case map_of kvs k of None \<Rightarrow> 0 | Some t \<Rightarrow> t) + v)
        else map_of kvs k')"
  by (induction kvs k v rule: add_to.induct) auto

lemma days_total_snoc:
  "days_total k (ds @ [d]) = days_total k ds + (if salesperson d = k then distance_km d else 0)"
  by (simp add: days_total_def)

lemma days_total_fresh: "k \<notin> salesperson ` set ds \<Longrightarrow> days_total k ds = 0"
proof -
  assume "k \<notin> salesperson ` set ds"
  then have "filter (\<lambda>d. salesperson d = k) ds = []"
    by (auto simp: filter_empty_conv)
  then show ?thesis by (simp add: days_total_def)
qed

lemma results_ok_step:
  assumes "results_ok results detailed" and "salesperson d = k" and "distance_km d = km"
  shows "results_ok (add_to results k km) (detailed @ [d])"
proof -
  have dist: "distinct (map fst results)"
    using assms(1) by (simp add: results_ok_def)
  have vals: "map_of results k
       = (if k \<in> salesperson ` set detailed then Some (days_total k detailed) else None)" for k
    using assms(1) unfolding results_ok_def by blast
  have "map_of (add_to results k km) k'
      = (if k' \<in> salesperson ` set (detailed @ [d])
         then Some (days_total k' (detailed @ [d])) else None)" for k'
    using assms(2,3)
    by (auto simp: map_of_add_to vals days_total_snoc days_total_fresh)
  then show ?thesis
    using dist add_to_distinct [of results k km] unfolding results_ok_def by blast
qed

lemma group_loop_results_ok:
  "group_loop L groups results detailed = Inr (results', detailed')
    \<Longrightarrow> results_ok results detailed \<Longrightarrow> results_ok results' detailed'"
proof (induction groups arbitrary: results detailed)
  case Nil
  then show ?case by simp
next
  case (Cons kg groups)
  obtain name erp wk dy grp where kg: "kg = ((name, erp, wk, dy), grp)"
    by (metis prod_cases4 surj_pair)
  from Cons.prems(1) obtain w km where
    rest: "group_loop L groups (add_to results (name, erp) km)
           (detailed @ [\<lparr>so_name = name, so_erp_id = erp, week = w, day = py_str L dy,
              distance_km = km, outlets_visited = length grp\<rparr>]) = Inr (results', detailed')"
    unfolding kg by (rule group_loop_step)
  show ?case
  proof (rule Cons.IH [OF rest])
    show "results_ok (add_to results (name, erp) km)
           (detailed @ [\<lparr>so_name = name, so_erp_id = erp, week = w, day = py_str L dy,
              distance_km = km, outlets_visited = length grp\<rparr>])"
      using Cons.prems(2) by (rule results_ok_step) (simp_all add: salesperson_def)
  qed
qed

lemma results_ok_empty: "results_ok [] []"
  by (simp add: results_ok_def)

lemma rows_of_day_located:
  "rows_of_day df k = filter (\<lambda>r. day_key r = k) (located_rows df)"
  by (cases k) (auto simp: rows_of_day_def located_rows_def dropna_def isna_def day_key_def
      intro: filter_cong)

lemma success_run:
  assumes "read_excel L file_path = Inr df"
    and "calculate_monthly_distance L file_path = Inr (Status_success summary detailed)"
  obtains results where "group_loop L (day_groups L df) [] [] = Inr (results, detailed)"
    and "summary = total_summary L results"
  using assms
  by (auto simp: calculate_monthly_distance_def split: option.splits sum.splits)

lemma demo_run:
  "calculate_monthly_distance (demo_libs demo_frame) ''routes.xlsx''
     = Inr (Status_success demo_summary demo_breakdown)"
  by code_simp

lemma demo_groups:
  "map fst (day_groups (demo_libs demo_frame) demo_frame)
     = [(Str ''Bob'', Str ''E2'', Flt (Fin 1), Str ''Mon''),
        (Str ''alice'', Str ''E1'', Flt (Fin 1), Str ''Mon''),
        (Str ''alice'', Str ''E1'', Flt (Fin 2), Str ''Tue'')]"
  by code_simp

text \<open>
  C8: for every day result of the daily breakdown, OUTLETS_VISITED is the number of
  rows of its (salesperson name, salesperson id, week, day) group among the rows that
  have both coordinates. The day results stand in the order of the day groups, whose
  keys are distinct.
\<close>

theorem outlets_visited_is_group_size:
  assumes "read_excel L file_path = Inr df"
    and "calculate_monthly_distance L file_path = Inr (Status_success summary detailed)"
  shows "length detailed = length (day_groups L df)
         \<and> distinct (map fst (day_groups L df))
         \<and> (\<forall>i<length detailed.
               made_from L (detailed ! i) (day_groups L df ! i)
               \<and> outlets_visited (detailed ! i)
                   = length (rows_of_day df (fst (day_groups L df ! i))))"
proof -
  from assms obtain results where
    loop: "group_loop L (day_groups L df) [] [] = Inr (results, detailed)"
    by (rule success_run)
  from group_loop_detailed [OF loop]
  have all2: "list_all2 (made_from L) detailed (day_groups L df)"
    by simp
  then have len: "length detailed = length (day_groups L df)"
    by (rule list_all2_lengthD)
  have "made_from L (detailed ! i) (day_groups L df ! i)
        \<and> outlets_visited (detailed ! i) = length (rows_of_day df (fst (day_groups L df ! i)))"
    if "i < length detailed" for i
  proof -
    obtain k g where kg: "day_groups L df ! i = (k, g)"
      by (cases "day_groups L df ! i")
    have m: "made_from L (detailed ! i) (k, g)"
      using all2 that kg by (auto dest: list_all2_nthD)
    then have "outlets_visited (detailed ! i) = length g"
      by (auto simp: made_from_def)
    moreover have "(k, g) \<in> set (day_groups L df)"
      using that len kg by (metis nth_mem)
    then have "length g = length (rows_of_day df k)"
      by (simp add: day_groups_group_size rows_of_day_located)
    ultimately show ?thesis
      using m kg by simp
  qed
  with len day_groups_distinct show ?thesis
    by blast
qed

theorem outlets_visited_is_group_size_witness:
  "read_excel (demo_libs demo_frame) ''routes.xlsx'' = Inr demo_frame
   \<and> calculate_monthly_distance (demo_libs demo_frame) ''routes.xlsx''
       = Inr (Status_success demo_summary demo_breakdown)
   \<and> length demo_breakdown = length (day_groups (demo_libs demo_frame) demo_frame)
   \<and> fst (day_groups (demo_libs demo_frame) demo_frame ! 2)
       = (Str ''alice'', Str ''E1'', Flt (Fin 2), Str ''Tue'')
   \<and> outlets_visited (demo_breakdown ! 2)
       = length (rows_of_day demo_frame (Str ''alice'', Str ''E1'', Flt (Fin 2), Str ''Tue''))
   \<and> outlets_visited (demo_breakdown ! 2) = 3"
proof -
  have h1: "read_excel (demo_libs demo_frame) ''routes.xlsx'' = Inr demo_frame"
    by (rule demo_read)
  have len: "length (day_groups (demo_libs demo_frame) demo_frame) = 3"
    using arg_cong [OF demo_groups, of length] by simp
  have "fst (day_groups (demo_libs demo_frame) demo_frame ! 2)
          = map fst (day_groups (demo_libs demo_frame) demo_frame) ! 2"
    using len by simp
  then have key: "fst (day_groups (demo_libs demo_frame) demo_frame ! 2)
       = (Str ''alice'', Str ''E1'', Flt (Fin 2), Str ''Tue'')"
    by (simp add: demo_groups)
  have i: "2 < length demo_breakdown"
    by (simp add: demo_breakdown_def)
  have "outlets_visited (demo_breakdown ! 2) = 3"
    by (simp add: demo_breakdown_def)
  with outlets_visited_is_group_size [OF h1 demo_run] h1 demo_run key i show ?thesis
    by auto
qed

subsection \<open>The summary\<close>

lemma total_summary_set:
  "set (total_summary L results)
     = (\<lambda>((so, erp), dist). \<lparr>s_so_name = so, s_so_erp_id = erp,
          total_monthly_distance_km = py_round2 dist\<rparr>) ` set results"
  by (simp add: total_summary_def)

lemma total_summary_people:
  "mset (map (\<lambda>e. (s_so_name e, s_so_erp_id e)) (total_summary L results)) = mset (map fst results)"
proof -
  have "map (\<lambda>e. (s_so_name e, s_so_erp_id e))
          (map (\<lambda>((so, erp), dist). \<lparr>s_so_name = so, s_so_erp_id = erp,
             total_monthly_distance_km = py_round2 dist\<rparr>) results) = map fst results"
    by (induction results) auto
  then have "mset (map fst results)
      = image_mset (\<lambda>e. (s_so_name e, s_so_erp_id e))
          (mset (map (\<lambda>((so, erp), dist). \<lparr>s_so_name = so, s_so_erp_id = erp,
             total_monthly_distance_km = py_round2 dist\<rparr>) results))"
    by (simp only: mset_map [symmetric])
  then show ?thesis
    by (simp only: total_summary_def mset_map mset_sort)
qed

text \<open>
  C3: for every salesperson of the output, TOTAL_MONTHLY_DISTANCE_KM of the summary
  entry differs by at most 0.01 from the sum of DISTANCE_KM over the day results of
  that salesperson; every day result has the summary entry of its salesperson, and no
  salesperson has two entries.
\<close>

theorem monthly_total_is_sum_of_days:
  assumes "calculate_monthly_distance L file_path = Inr (Status_success summary detailed)"
  shows "(\<forall>e \<in> set summary.
            \<bar>total_monthly_distance_km e
               - (\<Sum>d\<leftarrow>filter (\<lambda>d. so_name d = s_so_name e \<and> so_erp_id d = s_so_erp_id e) detailed.
                    distance_km d)\<bar> \<le> 1 / 100)
         \<and> (\<forall>d \<in> set detailed. \<exists>e \<in> set summary.
               s_so_name e = so_name d \<and> s_so_erp_id e = so_erp_id d)
         \<and> distinct (map (\<lambda>e. (s_so_name e, s_so_erp_id e)) summary)"
proof -
  obtain df where df: "read_excel L file_path = Inr df"
    using assms by (auto simp: calculate_monthly_distance_def split: sum.splits)
  from df assms obtain results where
    loop: "group_loop L (day_groups L df) [] [] = Inr (results, detailed)"
    and summary: "summary = total_summary L results"
    by (rule success_run)
  have ok: "results_ok results detailed"
    using loop results_ok_empty by (rule group_loop_results_ok)
  then have dist: "distinct (map fst results)"
    by (simp add: results_ok_def)
  have vals: "map_of results k
       = (if k \<in> salesperson ` set detailed then Some (days_total k detailed) else None)" for k
    using ok unfolding results_ok_def by blast
  have part1: "\<bar>total_monthly_distance_km e
               - (\<Sum>d\<leftarrow>filter (\<lambda>d. so_name d = s_so_name e \<and> so_erp_id d = s_so_erp_id e) detailed.
                    distance_km d)\<bar> \<le> 1 / 100" if "e \<in> set summary" for e
  proof -
    from that obtain so erp dist' where in_res: "((so, erp), dist') \<in> set results"
      and e: "e = \<lparr>s_so_name = so, s_so_erp_id = erp, total_monthly_distance_km = py_round2 dist'\<rparr>"
      unfolding summary total_summary_set by auto
    have "map_of results (so, erp) = Some dist'"
      using dist in_res by simp
    then have "dist' = days_total (so, erp) detailed"
      using vals [of "(so, erp)"] by (simp split: if_splits)
    then have "dist' = (\<Sum>d\<leftarrow>filter (\<lambda>d. so_name d = s_so_name e \<and> so_erp_id d = s_so_erp_id e) detailed.
                    distance_km d)"
      by (simp add: days_total_def salesperson_def e)
    moreover have "\<bar>py_round2 dist' - dist'\<bar> \<le> 1 / 200"
      by (rule py_round2_near)
    ultimately show ?thesis
      by (simp add: e)
  qed
  have part2: "\<exists>e \<in> set summary. s_so_name e = so_name d \<and> s_so_erp_id e = so_erp_id d"
    if "d \<in> set detailed" for d
  proof -
    have "map_of results (salesperson d) = Some (days_total (salesperson d) detailed)"
      using vals [of "salesperson d"] that by simp
    then have "(salesperson d, days_total (salesperson d) detailed) \<in> set results"
      by (rule map_of_SomeD)
    then have "(\<lambda>((so, erp), dist). \<lparr>s_so_name = so, s_so_erp_id = erp,
          total_monthly_distance_km = py_round2 dist\<rparr>)
          (salesperson d, days_total (salesperson d) detailed) \<in> set summary"
      unfolding summary total_summary_set by (rule imageI)
    then have "\<lparr>s_so_name = so_name d, s_so_erp_id = so_erp_id d,
        total_monthly_distance_km = py_round2 (days_total (salesperson d) detailed)\<rparr> \<in> set summary"
      by (simp add: salesperson_def)
    then show ?thesis
      by (rule rev_bexI) simp
  qed
  have part3: "distinct (map (\<lambda>e. (s_so_name e, s_so_erp_id e)) summary)"
    unfolding summary
    using dist mset_eq_imp_distinct_iff [OF total_summary_people [of L results]]
    by simp
  from part1 part2 part3 show ?thesis
    by blast
qed

theorem monthly_total_is_sum_of_days_witness:
  "calculate_monthly_distance (demo_libs demo_frame) ''routes.xlsx''
     = Inr (Status_success demo_summary demo_breakdown)
   \<and> total_monthly_distance_km (demo_summary ! 0) = 138.99
   \<and> (\<Sum>d\<leftarrow>filter (\<lambda>d. so_name d = s_so_name (demo_summary ! 0)
                       \<and> so_erp_id d = s_so_erp_id (demo_summary ! 0)) demo_breakdown.
         distance_km d) = 0 + 138.99
   \<and> \<bar>total_monthly_distance_km (demo_summary ! 0)
        - (\<Sum>d\<leftarrow>filter (\<lambda>d. so_name d = s_so_name (demo_summary ! 0)
                           \<and> so_erp_id d = s_so_erp_id (demo_summary ! 0)) demo_breakdown.
             distance_km d)\<bar> \<le> 1 / 100
   \<and> distinct (map (\<lambda>e. (s_so_name e, s_so_erp_id e)) demo_summary)"
proof -
  have "demo_summary ! 0 \<in> set demo_summary"
    by (simp add: demo_summary_def)
  moreover have "total_monthly_distance_km (demo_summary ! 0) = 138.99"
    by (simp add: demo_summary_def)
  moreover have "(\<Sum>d\<leftarrow>filter (\<lambda>d. so_name d = s_so_name (demo_summary ! 0)
                       \<and> so_erp_id d = s_so_erp_id (demo_summary ! 0)) demo_breakdown.
         distance_km d) = 0 + 138.99"
    by (simp add: demo_summary_def demo_breakdown_def)
  ultimately show ?thesis
    using monthly_total_is_sum_of_days [OF demo_run] demo_run by blast
qed

text \<open>
  C7: the summary of a successful result is sorted by the salesperson name compared
  without regard to case, and by the salesperson id as a text among equal names; the
  salespeople "Bob" and "alice" come out as alice, Bob.
\<close>

theorem summary_sorted_by_name_then_id:
  assumes "calculate_monthly_distance L file_path = Inr (Status_success summary detailed)"
  shows "sorted_wrt (\<lambda>a b.
           py_lower (py_str L (s_so_name a)) < py_lower (py_str L (s_so_name b))
           \<or> (py_lower (py_str L (s_so_name a)) = py_lower (py_str L (s_so_name b))
              \<and> py_str L (s_so_erp_id a) \<le> py_str L (s_so_erp_id b))) summary"
proof -
  obtain df where df: "read_excel L file_path = Inr df"
    using assms by (auto simp: calculate_monthly_distance_def split: sum.splits)
  from df assms obtain results where summary: "summary = total_summary L results"
    by (rule success_run)
  have "sorted (map (summary_key L) summary)"
    unfolding summary total_summary_def by (rule sorted_sort_key)
  then have "sorted_wrt (\<lambda>a b. summary_key L a \<le> summary_key L b) summary"
    by (simp add: sorted_map)
  then show ?thesis
  proof (rule sorted_wrt_mono_rel [rotated])
    fix a b
    assume "summary_key L a \<le> summary_key L b"
    then show "py_lower (py_str L (s_so_name a)) < py_lower (py_str L (s_so_name b))
           \<or> (py_lower (py_str L (s_so_name a)) = py_lower (py_str L (s_so_name b))
              \<and> py_str L (s_so_erp_id a) \<le> py_str L (s_so_erp_id b))"
      by (auto simp: summary_key_def less_eq_prod_def)
  qed
qed

theorem summary_sorted_by_name_then_id_witness:
  "calculate_monthly_distance (demo_libs demo_frame) ''routes.xlsx''
     = Inr (Status_success demo_summary demo_breakdown)
   \<and> map s_so_name demo_summary = [Str ''alice'', Str ''Bob'']
   \<and> sorted_wrt (\<lambda>a b.
         py_lower (py_str (demo_libs demo_frame) (s_so_name a))
           < py_lower (py_str (demo_libs demo_frame) (s_so_name b))
         \<or> (py_lower (py_str (demo_libs demo_frame) (s_so_name a))
               = py_lower (py_str (demo_libs demo_frame) (s_so_name b))
            \<and> py_str (demo_libs demo_frame) (s_so_erp_id a)
                 \<le> py_str (demo_libs demo_frame) (s_so_erp_id b))) demo_summary"
proof -
  have "map s_so_name demo_summary = [Str ''alice'', Str ''Bob'']"
    by (simp add: demo_summary_def)
  with summary_sorted_by_name_then_id [OF demo_run] demo_run show ?thesis
    by blast
qed

subsection \<open>A text in a coordinate column\<close>

text \<open>\<open>int(week)\<close> raises in the same way on a week that is no number.\<close>

lemma text_week_raises:
  "calculate_monthly_distance (demo_libs text_week_frame) ''routes.xlsx'' = Inl ValueError"
  by code_simp

text \<open>
  C1: \<open>calculate_monthly_distance\<close> is to return a result dict for every dataset and
  never to raise. It does raise: when the sheet has the required columns and one visit
  whose latitude is a text that \<open>float\<close> rejects, \<open>astype(float)\<close> raises
  ValueError in the group loop, outside every \<open>try\<close>.
\<close>

theorem text_latitude_raises:
  assumes "read_excel L file_path = Inr df"
    and "set required_cols \<subseteq> set (columns df)"
    and "rows df = [r]"
    and "r ''Latitude'' = Str s"
    and "float_of_str L s = None"
    and "list_all (\<lambda>c. \<not> isna (r c)) [''Longitude'', ''SO NAME'', ''SO_ERP_ID'', ''WEEK'', ''DAY'']"
  shows "calculate_monthly_distance L file_path = Inl ValueError"
proof -
  define r' where "r' = r(''VISIT_ORDER'' := to_numeric L (r ''VISIT_ORDER''))"
  have cols: "check_required required_cols (columns df) = None"
    using assms(2) by (simp add: check_required_None)
  have vo: "''VISIT_ORDER'' \<in> set (columns df)"
    using assms(2) by (auto simp: required_cols_def)
  have loc: "located_rows df = [r]"
    using assms(3,4,6) by (simp add: located_rows_def dropna_def isna_def)
  have "groupby [r'] = [(day_key r', [r'])]"
    using assms(6) by (simp add: groupby_def dropna_def r'_def)
  then have dg: "day_groups L df = [(day_key r', [r'])]"
    by (simp add: day_groups_def loc vo coerce_visit_order_def sort_values_def r'_def)
  have "group_loop L [(day_key r', [r'])] [] [] = Inl ValueError"
    using assms(4,5) by (simp add: day_key_def r'_def)
  then show ?thesis
    using assms(1) cols dg by (simp add: calculate_monthly_distance_def)
qed

theorem text_latitude_raises_witness:
  "calculate_monthly_distance (demo_libs text_latitude_frame) ''routes.xlsx'' = Inl ValueError"
proof -
  let ?r = "visit ''alice'' ''E1'' (Str ''abc'') (Flt (Fin 76.3)) 1 ''Mon'' 1"
  have "read_excel (demo_libs text_latitude_frame) ''routes.xlsx'' = Inr text_latitude_frame"
    by (rule demo_read)
  moreover have "set required_cols \<subseteq> set (columns text_latitude_frame)"
    by (simp add: text_latitude_frame_def)
  moreover have "rows text_latitude_frame = [?r]"
    by (simp add: text_latitude_frame_def)
  moreover have "?r ''Latitude'' = Str ''abc''"
    by (simp add: visit_def mk_row_def)
  moreover have "float_of_str (demo_libs text_latitude_frame) ''abc'' = None"
    by (simp add: demo_libs_def)
  moreover have "list_all (\<lambda>c. \<not> isna (?r c))
      [''Longitude'', ''SO NAME'', ''SO_ERP_ID'', ''WEEK'', ''DAY'']"
    by (simp add: visit_def mk_row_def isna_def)
  ultimately show ?thesis
    by (rule text_latitude_raises)
qed

end
